theory Spec2Isabelle
  imports Main
begin

section \<open>Strings\<close>

text \<open>
  A JavaScript string is a sequence of UTF-16 code units. It is modelled as a
  \<^typ>\<open>string\<close>, one \<^typ>\<open>char\<close> per code unit, so the model covers the code units
  below 256 (Latin-1). Reading \<^verbatim>\<open>text[index]\<close> outside the string gives
  \<^verbatim>\<open>undefined\<close>, here \<^term>\<open>None\<close>.
\<close>

definition js_index :: "string \<Rightarrow> int \<Rightarrow> char option" where
  "js_index text i = (if 0 \<le> i \<and> i < int (length text) then Some (text ! nat i) else None)"

text \<open>The array \<^verbatim>\<open>sentenceEndings = ['.', '!', '?']\<close> of \<^verbatim>\<open>getSentenceUnderCursor\<close>.\<close>

definition sentenceEndings :: "char list" where
  "sentenceEndings = [CHR ''.'', CHR ''!'', CHR ''?'']"

text \<open>
  The class \<^verbatim>\<open>\s\<close> of a JavaScript regular expression, among the code units below
  256: tab, line feed, vertical tab, form feed, carriage return, space and the
  no-break space.
\<close>

definition isWhiteSpace :: "char \<Rightarrow> bool" where
  "isWhiteSpace c = (c \<in> set [CHR 0x09, CHR 0x0A, CHR 0x0B, CHR 0x0C, CHR 0x0D, CHR 0x20, CHR 0xA0])"

text \<open>
  \<^verbatim>\<open>sentenceEndings.includes(text[index])\<close> and \<^verbatim>\<open>/\s/.test(text[index])\<close>. On
  \<^verbatim>\<open>undefined\<close> the first is false, and the second tests the string "undefined",
  which has no white space.
\<close>

definition includes_ending :: "char option \<Rightarrow> bool" where
  "includes_ending c = (case c of None \<Rightarrow> False | Some x \<Rightarrow> x \<in> set sentenceEndings)"

definition test_space :: "char option \<Rightarrow> bool" where
  "test_space c = (case c of None \<Rightarrow> False | Some x \<Rightarrow> isWhiteSpace x)"

text \<open>The character class \<^verbatim>\<open>[.!?\s]\<close> of the trimming expression.\<close>

definition trimmable :: "char \<Rightarrow> bool" where
  "trimmable c = (c \<in> set sentenceEndings \<or> isWhiteSpace c)"

text \<open>
  \<^verbatim>\<open>s.replace(/^[.!?\s]+|[.!?\s]+$/g, '')\<close>: the leading run and the trailing run of
  characters of the class are removed.
\<close>

definition strip_sentence :: "string \<Rightarrow> string" where
  "strip_sentence s = rev (dropWhile trimmable (rev (dropWhile trimmable s)))"

text \<open>
  \<^verbatim>\<open>text.substring(start, end)\<close>: both arguments are clamped to the string, and
  swapped when the first is the larger.
\<close>

definition clamp_index :: "string \<Rightarrow> int \<Rightarrow> nat" where
  "clamp_index text i = (if i < 0 then 0 else if int (length text) < i then length text else nat i)"

definition js_substring :: "string \<Rightarrow> int \<Rightarrow> int \<Rightarrow> string" where
  "js_substring text start end' =
     (let a = clamp_index text start; b = clamp_index text end'
      in take (max a b - min a b) (drop (min a b) text))"

text \<open>
  \<^verbatim>\<open>String.prototype.toLowerCase\<close> on the code units below 256: the ASCII capitals
  and the Latin-1 capitals (all of 0xC0..0xDE but the multiplication sign 0xD7).
\<close>

definition toLowerCase_char :: "char \<Rightarrow> char" where
  "toLowerCase_char c =
     (let n = (of_char c :: nat)
      in if (65 \<le> n \<and> n \<le> 90) \<or> (192 \<le> n \<and> n \<le> 222 \<and> n \<noteq> 215)
         then char_of (n + 32) else c)"

definition toLowerCase :: "string \<Rightarrow> string" where
  "toLowerCase s = map toLowerCase_char s"

text \<open>\<^verbatim>\<open>s.includes(q)\<close>: \<^verbatim>\<open>q\<close> occurs in \<^verbatim>\<open>s\<close> as a contiguous substring.\<close>

fun is_prefix :: "string \<Rightarrow> string \<Rightarrow> bool" where
  "is_prefix [] s = True"
| "is_prefix (q # qs) [] = False"
| "is_prefix (q # qs) (c # cs) = (q = c \<and> is_prefix qs cs)"

fun js_includes :: "string \<Rightarrow> string \<Rightarrow> bool" where
  "js_includes [] q = (q = [])"
| "js_includes (c # cs) q = (is_prefix q (c # cs) \<or> js_includes cs q)"

text \<open>
  \<^verbatim>\<open>s.split(" ")\<close>: the pieces between the spaces, every space a separator; the
  result always has at least one piece.
\<close>

fun split_space :: "string \<Rightarrow> string list" where
  "split_space [] = [[]]"
| "split_space (c # cs) =
     (if c = CHR '' '' then [] # split_space cs
      else (case split_space cs of
              [] \<Rightarrow> [[c]]
            | w # ws \<Rightarrow> (c # w) # ws))"

text \<open>An array element read by index: \<^verbatim>\<open>undefined\<close> past the end.\<close>

definition array_index :: "'a list \<Rightarrow> nat \<Rightarrow> 'a option" where
  "array_index xs i = (if i < length xs then Some (xs ! i) else None)"

text \<open>A number in a template literal: its decimal digits.\<close>

fun digits_of :: "nat \<Rightarrow> string" where
  "digits_of n =
     (if n < 10 then [char_of (48 + n)]
      else digits_of (n div 10) @ [char_of (48 + n mod 10)])"

definition number_toString :: "int \<Rightarrow> string" where
  "number_toString i = (if i < 0 then CHR ''-'' # digits_of (nat (- i)) else digits_of (nat i))"

section \<open>The result cache\<close>

text \<open>
  \<^verbatim>\<open>SimpleWordCache\<close> holds a \<^verbatim>\<open>Map<string, string[]>\<close>. Its key is \<^verbatim>\<open>word[0]\<close>,
  which is \<^verbatim>\<open>undefined\<close> (here \<^term>\<open>None\<close>) for an empty key list; a JavaScript
  Map accepts that key.
\<close>

type_synonym SimpleWordCache = "string option \<rightharpoonup> string list"

definition SimpleWordCache_new :: SimpleWordCache where
  "SimpleWordCache_new = Map.empty"

definition SimpleWordCache_get :: "SimpleWordCache \<Rightarrow> string list \<Rightarrow> string list" where
  "SimpleWordCache_get m word = (case m (array_index word 0) of None \<Rightarrow> [] | Some r \<Rightarrow> r)"

definition SimpleWordCache_set :: "SimpleWordCache \<Rightarrow> string list \<Rightarrow> string list \<Rightarrow> SimpleWordCache" where
  "SimpleWordCache_set m word results = m(array_index word 0 \<mapsto> results)"

text \<open>
  The three cache objects are created once, when the module is loaded, by the
  constant \<^verbatim>\<open>EMPTY_CACHE\<close>; nothing else calls \<^verbatim>\<open>new SimpleWordCache()\<close>. The
  objects live in a store, and a \<^verbatim>\<open>WordyCache\<close> holds references to them under
  the keys \<^verbatim>\<open>syn\<close>, \<^verbatim>\<open>ant\<close> and \<^verbatim>\<open>rhy\<close>.
\<close>

type_synonym addr = nat

record WordyCache =
  syn :: addr
  ant :: addr
  rhy :: addr

definition EMPTY_CACHE :: WordyCache where
  "EMPTY_CACHE = \<lparr>syn = 0, ant = 1, rhy = 2\<rparr>"

section \<open>The lexical client\<close>

text \<open>
  \<^verbatim>\<open>DatamuseApi\<close> is an external collaborator. A call to it is a \<open>request\<close>; the
  service is a parameter of the model: a function from the requests issued so
  far and the present request to the suggestions, or to \<^term>\<open>None\<close> when the
  promise is rejected. An argument that is \<^verbatim>\<open>undefined\<close> is \<^term>\<open>None\<close>.
\<close>

datatype request =
  WordsSimilarTo string
| WordsOppositeTo string bool
| WordsThatRhymeWith string
| AlliterativeSynonyms "string option" "string option"

type_synonym datamuse = "request list \<Rightarrow> request \<Rightarrow> string list option"

datatype error = FetchRejected

section \<open>The editor and the user interface\<close>

record EditorPosition =
  line :: int
  ch :: int

text \<open>
  The editor is read through \<^verbatim>\<open>getSelection\<close>, \<^verbatim>\<open>getCursor\<close>, \<^verbatim>\<open>wordAt\<close>,
  \<^verbatim>\<open>getLine\<close> and \<^verbatim>\<open>getRange\<close>; each is a field of the record. A write to the
  document is not performed by the model: it is the action carried by a menu
  item or by a modal.
\<close>

record Editor =
  getSelection :: string
  getCursor_from :: EditorPosition
  getCursor_to :: EditorPosition
  getCursor_head :: EditorPosition
  wordAt :: "EditorPosition \<Rightarrow> (EditorPosition \<times> EditorPosition) option"
  getLine :: "int \<Rightarrow> string"
  getRange :: "EditorPosition \<Rightarrow> EditorPosition \<Rightarrow> string"

text \<open>
  The notices of the plugin: "Oops - No rhymes found.", "Oops - Select a word
  first.", "Oops - No results found." and "Cache cleared.".
\<close>

datatype notice = NoRhymesFound | SelectAWordFirst | NoResultsFound | CacheCleared

text \<open>
  The callback given to a \<^verbatim>\<open>SearchableWordsModal\<close>: it replaces the selection, or
  the range captured when the flow started, with the chosen word.
\<close>

datatype replace_fn = ReplaceSelection | ReplaceRange EditorPosition EditorPosition

datatype click_action =
  DoReplaceRange string EditorPosition EditorPosition
| OpenSearchableWordsModal "string list" replace_fn

datatype menu_element = MenuItem string "click_action option" | MenuSeparator

datatype ui_event = Notice notice | ModalOpened "string list" replace_fn

text \<open>\<^verbatim>\<open>SearchableWordsModal.getSuggestions\<close>: the words the user can choose for a query.\<close>

definition getSuggestions :: "string list \<Rightarrow> string \<Rightarrow> string list" where
  "getSuggestions words query =
     filter (\<lambda>word. js_includes (toLowerCase word) (toLowerCase query)) words"

section \<open>The plugin\<close>

text \<open>
  Of the settings the flows read \<^verbatim>\<open>editorMenuMaxResults\<close> only; the toggles of
  the editor menu are left out. The settings tab stores \<^verbatim>\<open>parseInt(value)\<close>
  there, so it can be any integer; the value \<^verbatim>\<open>NaN\<close> of a text that is not a
  number is outside the model.
\<close>

record WordyPluginSettings =
  editorMenuMaxResults :: int
  suggestionsMaxResults :: int

definition DEFAULT_SETTINGS :: WordyPluginSettings where
  "DEFAULT_SETTINGS = \<lparr>editorMenuMaxResults = 15, suggestionsMaxResults = 10\<rparr>"

text \<open>
  The state of the plugin: its settings, its field \<^verbatim>\<open>caches\<close>, the store of the
  cache objects, the requests issued to the lexical client so far, and the
  notices and modals shown so far.
\<close>

record WordyPlugin =
  settings :: WordyPluginSettings
  caches :: WordyCache
  store :: "addr \<Rightarrow> SimpleWordCache"
  fetch_log :: "request list"
  ui :: "ui_event list"

definition WordyPlugin_new :: WordyPlugin where
  "WordyPlugin_new =
     \<lparr>settings = DEFAULT_SETTINGS, caches = EMPTY_CACHE,
      store = (\<lambda>a. SimpleWordCache_new), fetch_log = [], ui = []\<rparr>"

text \<open>
  The click handler of the "Clear cache" button:
  \<^verbatim>\<open>this.plugin.caches = EMPTY_CACHE; new Notice("Cache cleared.")\<close>.
\<close>

definition clear_cache :: "WordyPlugin \<Rightarrow> WordyPlugin" where
  "clear_cache p = p\<lparr>caches := EMPTY_CACHE, ui := ui p @ [Notice CacheCleared]\<rparr>"

text \<open>
  \<^verbatim>\<open>getCacheOrFetch(cache, word, fetchFn)\<close>. The cache is a reference into the
  store; \<open>fetchFn\<close> names the request it sends. A rejected fetch rejects the
  call before \<^verbatim>\<open>cache.set\<close>.
\<close>

definition getCacheOrFetch ::
  "datamuse \<Rightarrow> addr \<Rightarrow> string \<Rightarrow> (string \<Rightarrow> request) \<Rightarrow> WordyPlugin \<Rightarrow> (error + string list) \<times> WordyPlugin" where
  "getCacheOrFetch api cache word fetchFn p =
     (let cached = SimpleWordCache_get (store p cache) [word]
      in if length cached > 0 then (Inr cached, p)
         else (let p1 = p\<lparr>fetch_log := fetch_log p @ [fetchFn word]\<rparr>
               in case api (fetch_log p) (fetchFn word) of
                    None \<Rightarrow> (Inl FetchRejected, p1)
                  | Some results \<Rightarrow>
                      (Inr results,
                       p1\<lparr>store := (store p1)(cache := SimpleWordCache_set (store p1 cache) [word] results)\<rparr>)))"

definition processSynonyms :: "datamuse \<Rightarrow> string \<Rightarrow> WordyPlugin \<Rightarrow> (error + string list) \<times> WordyPlugin" where
  "processSynonyms api word p = getCacheOrFetch api (syn (caches p)) word (\<lambda>word. WordsSimilarTo word) p"

definition processAntonyms :: "datamuse \<Rightarrow> string \<Rightarrow> WordyPlugin \<Rightarrow> (error + string list) \<times> WordyPlugin" where
  "processAntonyms api word p = getCacheOrFetch api (ant (caches p)) word (\<lambda>word. WordsOppositeTo word True) p"

definition processRhymes :: "datamuse \<Rightarrow> string \<Rightarrow> WordyPlugin \<Rightarrow> (error + string list) \<times> WordyPlugin" where
  "processRhymes api word p = getCacheOrFetch api (rhy (caches p)) word (\<lambda>word. WordsThatRhymeWith word) p"

text \<open>The three categories, and the process function of each.\<close>

datatype category = Synonym | Antonym | Rhyme

fun process :: "category \<Rightarrow> datamuse \<Rightarrow> string \<Rightarrow> WordyPlugin \<Rightarrow> (error + string list) \<times> WordyPlugin" where
  "process Synonym = processSynonyms"
| "process Antonym = processAntonyms"
| "process Rhyme = processRhymes"

fun category_cache :: "category \<Rightarrow> WordyCache \<Rightarrow> addr" where
  "category_cache Synonym c = syn c"
| "category_cache Antonym c = ant c"
| "category_cache Rhyme c = rhy c"

fun category_request :: "category \<Rightarrow> string \<Rightarrow> request" where
  "category_request Synonym word = WordsSimilarTo word"
| "category_request Antonym word = WordsOppositeTo word True"
| "category_request Rhyme word = WordsThatRhymeWith word"

section \<open>Sentence extraction\<close>

text \<open>
  \<^verbatim>\<open>findWordBoundaries(text, start, direction)\<close> is called with the directions
  \<^verbatim>\<open>-1\<close> and \<^verbatim>\<open>1\<close> only.
\<close>

datatype direction = Backward | Forward

fun direction_value :: "direction \<Rightarrow> int" where
  "direction_value Backward = - 1"
| "direction_value Forward = 1"

text \<open>
  The loop of \<^verbatim>\<open>findWordBoundaries\<close>, from the values of \<^verbatim>\<open>count\<close> and
  \<^verbatim>\<open>index\<close> at the loop head. Beside the returned index it yields the indices at
  which \<^verbatim>\<open>text[index]\<close> is evaluated, in order: once when the character is a
  sentence ending, twice otherwise.
\<close>

function findWordBoundaries_loop :: "string \<Rightarrow> direction \<Rightarrow> nat \<Rightarrow> int \<Rightarrow> int \<times> int list" where
  "findWordBoundaries_loop text direction count index =
     (if count < 5 \<and> index \<ge> 0 \<and> index < int (length text) then
        (if includes_ending (js_index text index) then (index, [index])
         else (case findWordBoundaries_loop text direction
                      (if test_space (js_index text index) then count + 1 else count)
                      (index + direction_value direction) of
                 (r, reads) \<Rightarrow> (r, index # index # reads)))
      else (if direction = Backward then index + 1 else index, []))"
  by pat_completeness auto
termination
  by (relation "measure (\<lambda>(text, direction, count, index).
        case direction of Backward \<Rightarrow> nat (index + 1) | Forward \<Rightarrow> nat (int (length text) - index))")
     (auto split: direction.splits)

declare findWordBoundaries_loop.simps [simp del]

definition findWordBoundaries :: "string \<Rightarrow> int \<Rightarrow> direction \<Rightarrow> int" where
  "findWordBoundaries text start direction = fst (findWordBoundaries_loop text direction 0 start)"

definition findWordBoundaries_reads :: "string \<Rightarrow> int \<Rightarrow> direction \<Rightarrow> int list" where
  "findWordBoundaries_reads text start direction = snd (findWordBoundaries_loop text direction 0 start)"

text \<open>The sentence of a line around the columns \<open>from_ch\<close> and \<open>to_ch\<close>.\<close>

definition sentence_of_line :: "string \<Rightarrow> int \<Rightarrow> int \<Rightarrow> string" where
  "sentence_of_line text from_ch to_ch =
     (let start = findWordBoundaries text from_ch Backward;
          end' = findWordBoundaries text to_ch Forward
      in strip_sentence (js_substring text start end'))"

definition getSentenceUnderCursor :: "Editor \<Rightarrow> EditorPosition \<Rightarrow> EditorPosition \<Rightarrow> string" where
  "getSentenceUnderCursor editor from' to' =
     sentence_of_line (getLine editor (line from')) (ch from') (ch to')"

record RootSelection =
  rs_word :: string
  rs_from :: EditorPosition
  rs_to :: EditorPosition
  rs_sentence :: string

definition getRootSelection :: "Editor \<Rightarrow> RootSelection" where
  "getRootSelection editor =
     (let selection = getSelection editor
      in if selection \<noteq> [] then
           (let from' = getCursor_from editor; to' = getCursor_to editor
            in \<lparr>rs_word = selection, rs_from = from', rs_to = to',
                rs_sentence = getSentenceUnderCursor editor from' to'\<rparr>)
         else (case wordAt editor (getCursor_head editor) of
                 None \<Rightarrow> \<lparr>rs_word = [], rs_from = \<lparr>line = 0, ch = 0\<rparr>, rs_to = \<lparr>line = 0, ch = 0\<rparr>,
                          rs_sentence = []\<rparr>
               | Some (sFrom, sTo) \<Rightarrow>
                   \<lparr>rs_word = getRange editor sFrom sTo, rs_from = sFrom, rs_to = sTo,
                    rs_sentence = getSentenceUnderCursor editor sFrom sTo\<rparr>))"

section \<open>The flows\<close>

text \<open>
  A flow takes the process function already bound to the plugin and to the
  lexical client, as \<^verbatim>\<open>this.processSynonyms.bind(this)\<close> is.
\<close>

type_synonym process_fn = "string \<Rightarrow> WordyPlugin \<Rightarrow> (error + string list) \<times> WordyPlugin"

definition createCommandModal :: "Editor \<Rightarrow> process_fn \<Rightarrow> WordyPlugin \<Rightarrow> (error + unit) \<times> WordyPlugin" where
  "createCommandModal editor processWord p =
     (let rs = getRootSelection editor
      in case processWord (rs_word rs) p of
           (Inl e, p1) \<Rightarrow> (Inl e, p1)
         | (Inr results, p1) \<Rightarrow>
             if length results = 0 then (Inr (), p1\<lparr>ui := ui p1 @ [Notice NoResultsFound]\<rparr>)
             else (Inr (), p1\<lparr>ui := ui p1 @ [ModalOpened results (ReplaceRange (rs_from rs) (rs_to rs))]\<rparr>))"

text \<open>\<^verbatim>\<open>words.slice(0, n)\<close>: a negative \<open>n\<close> counts from the end of the array.\<close>

definition slice0 :: "'a list \<Rightarrow> int \<Rightarrow> 'a list" where
  "slice0 words n = take (nat (if n < 0 then int (length words) + n else n)) words"

definition createMenuForWords ::
  "WordyPlugin \<Rightarrow> menu_element list \<Rightarrow> string list \<Rightarrow> EditorPosition \<Rightarrow> EditorPosition \<Rightarrow> menu_element list" where
  "createMenuForWords p menu words from' to' =
     (let maxResults = editorMenuMaxResults (settings p);
          menu1 = (if length words = 0 then menu @ [MenuItem ''No results found.'' None] else menu);
          menu2 = menu1 @ map (\<lambda>word. MenuItem word (Some (DoReplaceRange word from' to')))
                              (slice0 words maxResults)
      in if int (length words) > maxResults then
           menu2 @ [MenuSeparator,
                    MenuItem (''More... ('' @ number_toString (int (length words) - maxResults) @ '')'')
                             (Some (OpenSearchableWordsModal words (ReplaceRange from' to')))]
         else menu2)"

definition createWordMenu ::
  "menu_element list \<Rightarrow> Editor \<Rightarrow> (string \<Rightarrow> string \<Rightarrow> WordyPlugin \<Rightarrow> (error + string list) \<times> WordyPlugin)
     \<Rightarrow> WordyPlugin \<Rightarrow> (error + menu_element list) \<times> WordyPlugin" where
  "createWordMenu menu editor processWord p =
     (let rs = getRootSelection editor
      in case processWord (rs_word rs) (rs_sentence rs) p of
           (Inl e, p1) \<Rightarrow> (Inl e, p1)
         | (Inr results, p1) \<Rightarrow> (Inr (createMenuForWords p1 menu results (rs_from rs) (rs_to rs)), p1))"

text \<open>
  The callback of the command \<^verbatim>\<open>wordy-asyn\<close>. The test \<^verbatim>\<open>rootWord != ""\<close> is the
  loose inequality: it holds of \<^verbatim>\<open>undefined\<close> and of every non-empty string.
\<close>

definition wordy_asyn_editorCallback :: "datamuse \<Rightarrow> Editor \<Rightarrow> WordyPlugin \<Rightarrow> (error + unit) \<times> WordyPlugin" where
  "wordy_asyn_editorCallback api editor p =
     (let parts = split_space (getSelection editor);
          priorWord = array_index parts 0;
          rootWord = array_index parts 1
      in if rootWord \<noteq> Some [] then
           (let req = AlliterativeSynonyms priorWord rootWord;
                p1 = p\<lparr>fetch_log := fetch_log p @ [req]\<rparr>
            in case api (fetch_log p) req of
                 None \<Rightarrow> (Inl FetchRejected, p1)
               | Some alliterativeSynonyms \<Rightarrow>
                   if length alliterativeSynonyms = 0 then (Inr (), p1\<lparr>ui := ui p1 @ [Notice NoRhymesFound]\<rparr>)
                   else (Inr (), p1\<lparr>ui := ui p1 @ [ModalOpened alliterativeSynonyms ReplaceSelection]\<rparr>))
         else (Inr (), p\<lparr>ui := ui p @ [Notice SelectAWordFirst]\<rparr>))"

text \<open>
  What a click on a menu element can write to the document, for the query the
  user types if the click opens a modal: the chosen word and the range it
  replaces.
\<close>

fun replacements :: "string \<Rightarrow> menu_element \<Rightarrow> (string \<times> replace_fn) list" where
  "replacements query (MenuItem title (Some (DoReplaceRange word from' to'))) = [(word, ReplaceRange from' to')]"
| "replacements query (MenuItem title (Some (OpenSearchableWordsModal words f))) =
     map (\<lambda>word. (word, f)) (getSuggestions words query)"
| "replacements query (MenuItem title None) = []"
| "replacements query MenuSeparator = []"

section \<open>The specification's reading of the cache key, and example inputs\<close>

text \<open>
  The key as the specification words it: the lowercase form of the single
  lookup word. It is compared below with the key of the code, which is
  \<^term>\<open>array_index word 0\<close>.
\<close>

definition spec_cache_key :: "string list \<Rightarrow> string option" where
  "spec_cache_key word = map_option toLowerCase (array_index word 0)"

text \<open>A lexical client that answers every request with the one word "glad".\<close>

definition glad_api :: datamuse where
  "glad_api log req = Some [''glad'']"

text \<open>A lexical client that finds nothing.\<close>

definition silent_api :: datamuse where
  "silent_api log req = Some []"

text \<open>
  An editor holding the one line \<open>text\<close>, with the given selection and cursor
  columns, whose word lookup answers \<open>word_range\<close> at every position.
\<close>

definition line_editor ::
  "string \<Rightarrow> string \<Rightarrow> int \<Rightarrow> int \<Rightarrow> (int \<times> int) option \<Rightarrow> Editor" where
  "line_editor text selection from_ch to_ch word_range =
     \<lparr>getSelection = selection,
      getCursor_from = \<lparr>line = 0, ch = from_ch\<rparr>,
      getCursor_to = \<lparr>line = 0, ch = to_ch\<rparr>,
      getCursor_head = \<lparr>line = 0, ch = to_ch\<rparr>,
      wordAt = (\<lambda>pos. map_option (\<lambda>(a, b). (\<lparr>line = 0, ch = a\<rparr>, \<lparr>line = 0, ch = b\<rparr>)) word_range),
      getLine = (\<lambda>n. if n = 0 then text else []),
      getRange = (\<lambda>a b. js_substring text (ch a) (ch b))\<rparr>"

text \<open>Nothing selected, the cursor between the two spaces of "one  two", no word there.\<close>

definition no_word_editor :: Editor where
  "no_word_editor = line_editor ''one  two'' [] 4 4 None"

definition fox_line :: string where
  "fox_line = ''The quick brown fox jumps. Over the lazy dog.''"

text \<open>Nothing selected, the cursor inside "jumps", which spans the columns 20 to 25.\<close>

definition fox_editor :: Editor where
  "fox_editor = line_editor fox_line [] 22 22 (Some (20, 25))"

text \<open>A menu item that only informs: it has no click action.\<close>

definition is_info_item :: "menu_element \<Rightarrow> bool" where
  "is_info_item e = (case e of MenuItem title None \<Rightarrow> True | _ \<Rightarrow> False)"

definition twenty_words :: "string list" where
  "twenty_words = [''a'', ''b'', ''c'', ''d'', ''e'', ''f'', ''g'', ''h'', ''i'', ''j'',
                   ''k'', ''l'', ''m'', ''n'', ''o'', ''p'', ''q'', ''r'', ''s'', ''t'']"

definition origin :: EditorPosition where
  "origin = \<lparr>line = 0, ch = 0\<rparr>"

text \<open>
  The column of the line at which the extracted sentence begins: the start of
  the substring, plus the length of the leading run that is stripped. A column
  \<open>c\<close> of the line is the column \<open>c - sentence_offset\<close> of the sentence.
\<close>

definition sentence_offset :: "string \<Rightarrow> int \<Rightarrow> int \<Rightarrow> nat" where
  "sentence_offset text from_ch to_ch =
     (let start = findWordBoundaries text from_ch Backward;
          end' = findWordBoundaries text to_ch Forward
      in min (clamp_index text start) (clamp_index text end')
         + length (takeWhile trimmable (js_substring text start end')))"

text \<open>
  The boundary scan seen from the characters it reads, in the order it reads
  them, with \<open>c\<close> the count at the loop head: the number of characters it
  passes over, and whether it stops on a sentence ending.
\<close>

fun scan_steps :: "nat \<Rightarrow> string \<Rightarrow> nat" where
  "scan_steps c [] = 0"
| "scan_steps c (x # xs) =
     (if c < 5 \<and> x \<notin> set sentenceEndings
      then Suc (scan_steps (if isWhiteSpace x then c + 1 else c) xs) else 0)"

fun scan_halted :: "nat \<Rightarrow> string \<Rightarrow> bool" where
  "scan_halted c [] = False"
| "scan_halted c (x # xs) =
     (c < 5 \<and> (x \<in> set sentenceEndings \<or> scan_halted (if isWhiteSpace x then c + 1 else c) xs))"

section \<open>The cache\<close>

lemma clear_cache_store: "store (clear_cache p) = store p"
  by (simp add: clear_cache_def)

lemma clear_cache_same_object: "caches p = EMPTY_CACHE \<Longrightarrow> caches (clear_cache p) = caches p"
  by (simp add: clear_cache_def)

text \<open>
  C1 (the code at the failing input). The claim: after "clear cache", get for a
  previously cached word returns an empty sequence in every category. In the
  code the field \<^verbatim>\<open>caches\<close> is the object \<^verbatim>\<open>EMPTY_CACHE\<close> from the start, so
  the entries are written into the caches of \<^verbatim>\<open>EMPTY_CACHE\<close> itself and the
  assignment \<^verbatim>\<open>this.plugin.caches = EMPTY_CACHE\<close> changes nothing: in a fresh
  plugin that has looked up the synonyms of "happy" and received "glad", get
  for "happy" in the synonym cache still returns "glad" after the clear.
\<close>

theorem clear_cache_keeps_entries:
  "SimpleWordCache_get
     (store (clear_cache (snd (processSynonyms glad_api ''happy'' WordyPlugin_new)))
        (syn (caches (clear_cache (snd (processSynonyms glad_api ''happy'' WordyPlugin_new))))))
     [''happy''] = [''glad'']"
  by (simp add: processSynonyms_def getCacheOrFetch_def WordyPlugin_new_def clear_cache_def EMPTY_CACHE_def
      glad_api_def SimpleWordCache_get_def SimpleWordCache_set_def SimpleWordCache_new_def array_index_def)

lemma getCacheOrFetch_hit:
  assumes "getCacheOrFetch api cache w f p = (Inr r, p1)" and "r \<noteq> []"
  shows "getCacheOrFetch api' cache w f p1 = (Inr r, p1)"
    and "fetch_log p1 = fetch_log p \<or> fetch_log p1 = fetch_log p @ [f w]"
    and "caches p1 = caches p"
  using assms
  by (auto simp: getCacheOrFetch_def Let_def SimpleWordCache_get_def SimpleWordCache_set_def array_index_def
       split: if_splits option.splits)

lemma getCacheOrFetch_miss:
  assumes "SimpleWordCache_get (store p cache) [w] = []" and "api (fetch_log p) (f w) = Some results"
  shows "fst (getCacheOrFetch api cache w f p) = Inr results"
    and "store (snd (getCacheOrFetch api cache w f p)) cache (Some w) = Some results"
    and "fetch_log (snd (getCacheOrFetch api cache w f p)) = fetch_log p @ [f w]"
  using assms
  by (auto simp: getCacheOrFetch_def Let_def SimpleWordCache_get_def SimpleWordCache_set_def array_index_def
       split: if_splits option.splits)

lemma process_unfold:
  "process c api w p = getCacheOrFetch api (category_cache c (caches p)) w (category_request c) p"
proof -
  have "category_request Synonym = (\<lambda>word. WordsSimilarTo word)"
    and "category_request Antonym = (\<lambda>word. WordsOppositeTo word True)"
    and "category_request Rhyme = (\<lambda>word. WordsThatRhymeWith word)"
    by (rule ext, simp)+
  then show ?thesis
    by (cases c) (simp_all add: processSynonyms_def processAntonyms_def processRhymes_def)
qed

text \<open>
  C2. For every word \<open>w\<close>, category \<open>c\<close> and plugin state \<open>p\<close>: if the process
  function of \<open>c\<close> returns a non-empty list \<open>r\<close> for \<open>w\<close>, leaving the state
  \<open>p1\<close>, then a second call with \<open>w\<close> returns \<open>r\<close> again and leaves \<open>p1\<close> as it
  is, whatever the lexical client \<open>api'\<close> would answer (it is not asked), and the
  first call has issued no request or the one request of \<open>c\<close> for \<open>w\<close>: the two
  calls issue at most one. And on a miss (get returns the empty list) a
  successful fetch is returned and stored under \<open>w\<close> by \<^verbatim>\<open>cache.set\<close>, be it empty
  or not.
\<close>

theorem process_twice_one_fetch:
  "(process c api w p = (Inr r, p1) \<and> r \<noteq> [] \<longrightarrow>
      process c api' w p1 = (Inr r, p1)
      \<and> (fetch_log p1 = fetch_log p \<or> fetch_log p1 = fetch_log p @ [category_request c w]))
   \<and> (SimpleWordCache_get (store p (category_cache c (caches p))) [w] = []
        \<and> api (fetch_log p) (category_request c w) = Some results \<longrightarrow>
      fst (process c api w p) = Inr results
      \<and> store (snd (process c api w p)) (category_cache c (caches p)) (Some w) = Some results
      \<and> fetch_log (snd (process c api w p)) = fetch_log p @ [category_request c w])"
proof (intro conjI impI)
  assume "process c api w p = (Inr r, p1) \<and> r \<noteq> []"
  then have g: "getCacheOrFetch api (category_cache c (caches p)) w (category_request c) p = (Inr r, p1)"
    and r: "r \<noteq> []"
    by (simp_all add: process_unfold)
  from getCacheOrFetch_hit(3) [OF g r] have "caches p1 = caches p" .
  with getCacheOrFetch_hit(1) [OF g r, of api']
  show "process c api' w p1 = (Inr r, p1)"
    by (simp add: process_unfold)
  from getCacheOrFetch_hit(2) [OF g r]
  show "fetch_log p1 = fetch_log p \<or> fetch_log p1 = fetch_log p @ [category_request c w]" .
next
  assume "SimpleWordCache_get (store p (category_cache c (caches p))) [w] = []
        \<and> api (fetch_log p) (category_request c w) = Some results"
  then have a: "SimpleWordCache_get (store p (category_cache c (caches p))) [w] = []"
    and b: "api (fetch_log p) (category_request c w) = Some results"
    by simp_all
  note miss = getCacheOrFetch_miss [where f = "category_request c" and api = api and p = p and w = w
      and cache = "category_cache c (caches p)" and results = results, OF a b]
  show "fst (process c api w p) = Inr results"
    using miss(1) by (simp add: process_unfold)
  show "store (snd (process c api w p)) (category_cache c (caches p)) (Some w) = Some results"
    using miss(2) by (simp add: process_unfold)
  show "fetch_log (snd (process c api w p)) = fetch_log p @ [category_request c w]"
    using miss(3) by (simp add: process_unfold)
qed

theorem process_twice_one_fetch_witness:
  "process Synonym glad_api ''happy'' (snd (process Synonym glad_api ''happy'' WordyPlugin_new))
     = (Inr [''glad''], snd (process Synonym glad_api ''happy'' WordyPlugin_new))
   \<and> fetch_log (snd (process Synonym glad_api ''happy'' WordyPlugin_new)) = [WordsSimilarTo ''happy'']
   \<and> store (snd (process Synonym glad_api ''happy'' WordyPlugin_new)) 0 (Some ''happy'') = Some [''glad'']"
proof -
  have a: "process Synonym glad_api ''happy'' WordyPlugin_new
             = (Inr [''glad''], snd (process Synonym glad_api ''happy'' WordyPlugin_new))"
    by (simp add: processSynonyms_def getCacheOrFetch_def WordyPlugin_new_def glad_api_def
          SimpleWordCache_get_def SimpleWordCache_new_def array_index_def)
  have b: "SimpleWordCache_get (store WordyPlugin_new (category_cache Synonym (caches WordyPlugin_new))) [''happy''] = []"
    by (simp add: WordyPlugin_new_def SimpleWordCache_get_def SimpleWordCache_new_def)
  have c: "glad_api (fetch_log WordyPlugin_new) (category_request Synonym ''happy'') = Some [''glad'']"
    by (simp add: glad_api_def)
  have d: "syn (caches WordyPlugin_new) = 0"
    by (simp add: WordyPlugin_new_def EMPTY_CACHE_def)
  have e: "fetch_log WordyPlugin_new = []"
    by (simp add: WordyPlugin_new_def)
  from process_twice_one_fetch [of Synonym glad_api "''happy''" WordyPlugin_new "[''glad'']"
      "snd (process Synonym glad_api ''happy'' WordyPlugin_new)" glad_api "[''glad'']"] a b c
  show ?thesis
    by (simp add: d e)
qed

text \<open>
  C5 (counterexample). Were the cache keyed by the lowercase form of the lookup
  word, the list stored for "Happy" would lie under "happy". It does not:
  after set for "Happy" nothing is stored under the lowercase key, and get for
  "happy" returns the empty list.
\<close>

theorem cache_key_lowercase_counterexample:
  "SimpleWordCache_set SimpleWordCache_new [''Happy''] [''glad'']
      (spec_cache_key [''Happy'']) = None
   \<and> SimpleWordCache_get (SimpleWordCache_set SimpleWordCache_new [''Happy''] [''glad''])
        [toLowerCase ''Happy''] = []"
proof -
  have "toLowerCase ''Happy'' = ''happy''"
    by code_simp
  then show ?thesis
    by (simp add: SimpleWordCache_get_def SimpleWordCache_set_def SimpleWordCache_new_def array_index_def
          spec_cache_key_def)
qed

text \<open>
  C5 (amended). The cache keys an entry by the first element of the key list
  exactly as it is given, with no change of letter case: for every cache, key
  list and result list, set followed by get with a key list that has the same
  first element returns the stored list, unchanged and in the same order; get
  with any other first element returns what it returned before the set; and
  the list is stored under the first element itself.
\<close>

theorem SimpleWordCache_set_get:
  "SimpleWordCache_get (SimpleWordCache_set m word results) word' =
     (if array_index word' 0 = array_index word 0 then results else SimpleWordCache_get m word')
   \<and> SimpleWordCache_set m (w # ws) results (Some w) = Some results"
  by (simp add: SimpleWordCache_get_def SimpleWordCache_set_def array_index_def)

theorem SimpleWordCache_set_get_witness:
  "SimpleWordCache_get (SimpleWordCache_set SimpleWordCache_new [''Happy''] [''glad'', ''merry'']) [''Happy'']
     = [''glad'', ''merry'']"
  using SimpleWordCache_set_get [of SimpleWordCache_new "[''Happy'']" "[''glad'', ''merry'']" "[''Happy'']"]
  by simp

section \<open>The flows without a target word\<close>

lemma getRootSelection_no_word:
  "getSelection editor = [] \<Longrightarrow> wordAt editor (getCursor_head editor) = None \<Longrightarrow>
   getRootSelection editor =
     \<lparr>rs_word = [], rs_from = \<lparr>line = 0, ch = 0\<rparr>, rs_to = \<lparr>line = 0, ch = 0\<rparr>, rs_sentence = []\<rparr>"
  by (simp add: getRootSelection_def)

lemmas cache_defs = processSynonyms_def getCacheOrFetch_def WordyPlugin_new_def EMPTY_CACHE_def
  SimpleWordCache_get_def SimpleWordCache_set_def SimpleWordCache_new_def array_index_def

text \<open>
  C3 (the code at the failing input). With nothing selected and no word under
  the cursor, \<^verbatim>\<open>getRootSelection\<close> returns the empty word with the span from
  line 0, column 0 to line 0, column 0 and the empty sentence, as the claim
  says. The claim goes on: the coordinator shows a notice and never fetches.
  In the code \<^verbatim>\<open>createCommandModal\<close> and \<^verbatim>\<open>createWordMenu\<close> do not look at the
  word: on a fresh plugin the command flow asks the lexical client for the
  words similar to the empty word, shows "No results found" only because the
  client found nothing, opens the picker bound to the range at line 0, column 0
  when the client answers, and the menu flow sends the same request.
\<close>

theorem no_word_still_fetches:
  "getRootSelection no_word_editor =
     \<lparr>rs_word = [], rs_from = \<lparr>line = 0, ch = 0\<rparr>, rs_to = \<lparr>line = 0, ch = 0\<rparr>, rs_sentence = []\<rparr>
   \<and> fetch_log (snd (createCommandModal no_word_editor (processSynonyms silent_api) WordyPlugin_new))
        = [WordsSimilarTo []]
   \<and> ui (snd (createCommandModal no_word_editor (processSynonyms silent_api) WordyPlugin_new))
        = [Notice NoResultsFound]
   \<and> ui (snd (createCommandModal no_word_editor (processSynonyms glad_api) WordyPlugin_new))
        = [ModalOpened [''glad''] (ReplaceRange \<lparr>line = 0, ch = 0\<rparr> \<lparr>line = 0, ch = 0\<rparr>)]
   \<and> fetch_log (snd (createWordMenu [] no_word_editor (\<lambda>word sentence. processSynonyms silent_api word)
                        WordyPlugin_new))
        = [WordsSimilarTo []]"
proof -
  have rs: "getRootSelection no_word_editor =
     \<lparr>rs_word = [], rs_from = \<lparr>line = 0, ch = 0\<rparr>, rs_to = \<lparr>line = 0, ch = 0\<rparr>, rs_sentence = []\<rparr>"
    by (simp add: getRootSelection_def no_word_editor_def line_editor_def)
  show ?thesis
    by (simp add: rs createCommandModal_def createWordMenu_def cache_defs silent_api_def glad_api_def)
qed

text \<open>
  C4 (the code at the failing input). The selection "big brave" gives the prior
  word "big" and the root word "brave", and the alliterative synonyms of the
  two are fetched, as the claim says. For the selection "brave" the claim says
  the root word is the empty string, the notice "select a word first" is shown
  and nothing is fetched. In the code the second piece of the split is
  \<^verbatim>\<open>undefined\<close>, the test \<^verbatim>\<open>rootWord != ""\<close> holds of it, and the request
  for "brave" and \<^verbatim>\<open>undefined\<close> is sent whatever the lexical client is; the
  notice is not shown. The notice is reached by a selection such as "big ",
  whose second piece is the empty string.
\<close>

theorem asyn_no_space_fetches:
  "fetch_log (snd (wordy_asyn_editorCallback api (line_editor ''brave'' ''brave'' 0 5 None) WordyPlugin_new))
     = [AlliterativeSynonyms (Some ''brave'') None]
   \<and> Notice SelectAWordFirst
        \<notin> set (ui (snd (wordy_asyn_editorCallback api (line_editor ''brave'' ''brave'' 0 5 None) WordyPlugin_new)))
   \<and> fetch_log (snd (wordy_asyn_editorCallback api (line_editor ''big brave'' ''big brave'' 0 9 None) WordyPlugin_new))
     = [AlliterativeSynonyms (Some ''big'') (Some ''brave'')]
   \<and> wordy_asyn_editorCallback api (line_editor ''big '' ''big '' 0 4 None) WordyPlugin_new
     = (Inr (), WordyPlugin_new\<lparr>ui := [Notice SelectAWordFirst]\<rparr>)"
  by (simp add: wordy_asyn_editorCallback_def line_editor_def array_index_def WordyPlugin_new_def Let_def
        split: option.splits)

section \<open>The menu\<close>

lemma number_toString_5: "number_toString 5 = ''5''"
  by code_simp

text \<open>
  C9. With \<^verbatim>\<open>editorMenuMaxResults = 15\<close> and a list of 20 results the menu
  receives, in this order, one entry for each of the first 15 results (its
  click replaces the captured range with that result), a separator, and one
  entry titled "More... (5)" whose click opens the searchable picker over all
  20 results. When the number of results does not exceed the maximum no
  overflow entry is added: the menu receives one entry for each result, or the
  entry "No results found." when there is none.
\<close>

theorem createMenuForWords_overflow:
  "(editorMenuMaxResults (settings p) = 15 \<and> length words = 20 \<longrightarrow>
      createMenuForWords p menu words f t =
        menu @ map (\<lambda>word. MenuItem word (Some (DoReplaceRange word f t))) (take 15 words)
             @ [MenuSeparator,
                MenuItem ''More... (5)'' (Some (OpenSearchableWordsModal words (ReplaceRange f t)))])
   \<and> (int (length words) \<le> editorMenuMaxResults (settings p) \<longrightarrow>
      createMenuForWords p menu words f t =
        menu @ (if words = [] then [MenuItem ''No results found.'' None]
                else map (\<lambda>word. MenuItem word (Some (DoReplaceRange word f t))) words))"
  by (auto simp: createMenuForWords_def slice0_def Let_def number_toString_5)

theorem createMenuForWords_overflow_witness:
  "createMenuForWords WordyPlugin_new [] twenty_words origin origin =
     map (\<lambda>word. MenuItem word (Some (DoReplaceRange word origin origin))) (take 15 twenty_words)
       @ [MenuSeparator,
          MenuItem ''More... (5)'' (Some (OpenSearchableWordsModal twenty_words (ReplaceRange origin origin)))]
   \<and> createMenuForWords WordyPlugin_new [] [''glad'', ''merry''] origin origin =
       [MenuItem ''glad'' (Some (DoReplaceRange ''glad'' origin origin)),
        MenuItem ''merry'' (Some (DoReplaceRange ''merry'' origin origin))]"
proof -
  have a: "editorMenuMaxResults (settings WordyPlugin_new) = 15"
    by (simp add: WordyPlugin_new_def DEFAULT_SETTINGS_def)
  have b: "length twenty_words = 20"
    by (simp add: twenty_words_def)
  from createMenuForWords_overflow [of WordyPlugin_new twenty_words "[]" origin origin]
       createMenuForWords_overflow [of WordyPlugin_new "[''glad'', ''merry'']" "[]" origin origin] a b
  show ?thesis
    by simp
qed

text \<open>
  C10. Given an empty result list, the menu flow adds exactly one informational
  item, titled "No results found." and without a click action, and nothing
  that the user can click in what it adds writes to the document, whatever is
  typed into a picker: there is no replacement to trigger. What is added does
  not depend on the menu it is added to; and when the configured maximum is
  not negative, the informational item is all that is added.
\<close>

theorem createMenuForWords_empty:
  "filter is_info_item (createMenuForWords p [] [] f t) = [MenuItem ''No results found.'' None]
   \<and> concat (map (replacements query) (createMenuForWords p [] [] f t)) = []
   \<and> createMenuForWords p menu [] f t = menu @ createMenuForWords p [] [] f t
   \<and> (0 \<le> editorMenuMaxResults (settings p) \<longrightarrow>
        createMenuForWords p menu [] f t = menu @ [MenuItem ''No results found.'' None])"
  by (simp add: createMenuForWords_def slice0_def Let_def is_info_item_def getSuggestions_def)

theorem createMenuForWords_empty_witness:
  "createMenuForWords WordyPlugin_new [] [] origin origin = [MenuItem ''No results found.'' None]"
proof -
  have "0 \<le> editorMenuMaxResults (settings WordyPlugin_new)"
    by (simp add: WordyPlugin_new_def DEFAULT_SETTINGS_def)
  with createMenuForWords_empty [of WordyPlugin_new origin origin "[]" "[]"]
  show ?thesis
    by simp
qed

section \<open>The boundary scan\<close>

lemma loop_unfold:
  "findWordBoundaries_loop s d c k =
     (if c < 5 \<and> k \<ge> 0 \<and> k < int (length s) then
        (if includes_ending (js_index s k) then (k, [k])
         else (fst (findWordBoundaries_loop s d (if test_space (js_index s k) then c + 1 else c) (k + direction_value d)),
               k # k # snd (findWordBoundaries_loop s d (if test_space (js_index s k) then c + 1 else c) (k + direction_value d))))
      else (if d = Backward then k + 1 else k, []))"
  by (subst findWordBoundaries_loop.simps) (simp add: case_prod_beta)

lemma loop_reads_in_bounds:
  "i \<in> set (snd (findWordBoundaries_loop s d c k)) \<Longrightarrow> 0 \<le> i \<and> i < int (length s)"
proof (induction s d c k rule: findWordBoundaries_loop.induct)
  case (1 s d c k)
  show ?case
  proof (cases "c < 5 \<and> k \<ge> 0 \<and> k < int (length s)")
    case False
    with "1.prems" show ?thesis
      by (subst (asm) loop_unfold) simp
  next
    case guard: True
    show ?thesis
    proof (cases "includes_ending (js_index s k)")
      case True
      with guard "1.prems" show ?thesis
        by (subst (asm) loop_unfold) simp
    next
      case False
      from "1.prems" guard False
      have "i = k \<or> i \<in> set (snd (findWordBoundaries_loop s d (if test_space (js_index s k) then c + 1 else c) (k + direction_value d)))"
        by (subst (asm) loop_unfold) (simp split: if_splits)
      then show ?thesis
      proof
        assume "i = k"
        with guard show ?thesis by simp
      next
        assume "i \<in> set (snd (findWordBoundaries_loop s d (if test_space (js_index s k) then c + 1 else c) (k + direction_value d)))"
        with "1.IH" [OF guard False] show ?thesis .
      qed
    qed
  qed
qed

text \<open>
  C7. For every line, every start column (inside the line, at its start, at
  its end, before it or past its end) and both directions, every index at
  which the boundary scan evaluates \<^verbatim>\<open>text[index]\<close> lies inside the line:
  \<open>0 \<le> index < length\<close>. Sentence extraction scans twice, backward from the
  start column of the span and forward from its end column.
\<close>

theorem findWordBoundaries_reads_in_bounds:
  "\<forall>i \<in> set (findWordBoundaries_reads s start d). 0 \<le> i \<and> i < int (length s)"
  unfolding findWordBoundaries_reads_def using loop_reads_in_bounds by blast

theorem findWordBoundaries_reads_in_bounds_witness:
  "findWordBoundaries_reads ''ab cd'' 2 Backward = [2, 2, 1, 1, 0, 0]
   \<and> findWordBoundaries_reads ''ab cd'' 5 Forward = []
   \<and> findWordBoundaries_reads ''ab cd'' 5 Backward = []
   \<and> list_all (\<lambda>i. 0 \<le> i \<and> i < int (length ''ab cd'')) (findWordBoundaries_reads ''ab cd'' 2 Backward)"
proof -
  have "findWordBoundaries_reads ''ab cd'' 2 Backward = [2, 2, 1, 1, 0, 0]"
    and "findWordBoundaries_reads ''ab cd'' 5 Forward = []"
    and "findWordBoundaries_reads ''ab cd'' 5 Backward = []"
    by code_simp+
  with findWordBoundaries_reads_in_bounds [of "''ab cd''" 2 Backward]
  show ?thesis by (simp add: list_all_iff)
qed

section \<open>Sentence extraction on the example line\<close>

text \<open>
  C6. On the line "The quick brown fox jumps. Over the lazy dog." with the
  cursor inside "jumps" (the word spans the columns 20 to 25), the sentence is
  exactly "The quick brown fox jumps": the forward scan starts at column 25,
  where the period is, and returns 25; the backward scan returns 0; nothing of
  the substring between is stripped.
\<close>

theorem fox_sentence:
  "rs_sentence (getRootSelection fox_editor) = ''The quick brown fox jumps''
   \<and> rs_word (getRootSelection fox_editor) = ''jumps''
   \<and> findWordBoundaries fox_line 25 Forward = 25
   \<and> js_index fox_line 25 = Some (CHR ''.'')
   \<and> findWordBoundaries fox_line 20 Backward = 0"
  by code_simp

section \<open>Extraction from an extracted sentence\<close>

lemma js_index_nat: "k < length s \<Longrightarrow> js_index s (int k) = Some (s ! k)"
  by (simp add: js_index_def)

lemma loop_forward:
  "fst (findWordBoundaries_loop s Forward c (int k)) = int k + int (scan_steps c (drop k s))"
proof (induction "length s - k" arbitrary: k c)
  case 0
  then show ?case
    by (subst loop_unfold) simp
next
  case (Suc n)
  then have k: "k < length s" by simp
  then have d: "drop k s = s ! k # drop (Suc k) s"
    by (simp add: Cons_nth_drop_Suc)
  from Suc have n: "n = length s - Suc k" by simp
  have i: "int k + 1 = int (Suc k)" by simp
  show ?case
    by (subst loop_unfold)
       (simp add: k js_index_nat [OF k] includes_ending_def test_space_def d i Suc.hyps(1) [OF n]
             del: of_nat_Suc)
qed

lemma loop_backward:
  "k \<le> length s \<Longrightarrow>
   fst (findWordBoundaries_loop s Backward c (int k - 1)) =
     int k - int (scan_steps c (rev (take k s))) - (if scan_halted c (rev (take k s)) then 1 else 0)"
proof (induction k arbitrary: c)
  case 0
  then show ?case
    by (subst loop_unfold) simp
next
  case (Suc k)
  then have k: "k < length s" by simp
  then have t: "take (Suc k) s = take k s @ [s ! k]"
    by (simp add: take_Suc_conv_app_nth)
  have i: "int (Suc k) - 1 = int k" "int k + - 1 = int k - 1" by simp_all
  from k have le: "k \<le> length s" by simp
  show ?case
    by (subst loop_unfold)
       (simp add: k js_index_nat [OF k] includes_ending_def test_space_def t i Suc.IH [OF le]
             del: of_nat_Suc)
qed

lemma scan_steps_le: "scan_steps c xs \<le> length xs"
  by (induction xs arbitrary: c) auto

lemma scan_halted_ending:
  "scan_halted c xs \<Longrightarrow> scan_steps c xs < length xs \<and> xs ! scan_steps c xs \<in> set sentenceEndings"
  by (induction xs arbitrary: c) (auto split: if_splits)

lemma scan_not_halted_pos:
  "\<not> scan_halted 0 (x # xs) \<Longrightarrow> 0 < scan_steps 0 (x # xs)"
  by simp

lemma scan_prefix:
  "m \<le> scan_steps c xs \<Longrightarrow> scan_steps c (take m xs) = m \<and> \<not> scan_halted c (take m xs)"
proof (induction xs arbitrary: c m)
  case Nil
  then show ?case by simp
next
  case (Cons x xs)
  show ?case
  proof (cases m)
    case 0
    then show ?thesis by simp
  next
    case (Suc j)
    with Cons.prems have g: "c < 5 \<and> x \<notin> set sentenceEndings"
      and j: "j \<le> scan_steps (if isWhiteSpace x then c + 1 else c) xs"
      by (auto split: if_splits)
    from Cons.IH [OF j] g Suc show ?thesis
      by simp
  qed
qed

lemma rev_dropWhile_rev_take:
  "rev (dropWhile P (rev xs)) = take (length (dropWhile P (rev xs))) xs"
proof -
  have "rev xs = takeWhile P (rev xs) @ dropWhile P (rev xs)" by simp
  then have "xs = rev (dropWhile P (rev xs)) @ rev (takeWhile P (rev xs))"
    by (metis rev_append rev_rev_ident)
  then show ?thesis
    by (metis append_eq_conv_conj length_rev)
qed

lemma strip_sentence_take:
  "strip_sentence xs =
     take (length (strip_sentence xs)) (drop (length (takeWhile trimmable xs)) xs)"
  unfolding strip_sentence_def
  by (metis rev_dropWhile_rev_take dropWhile_eq_drop length_rev)

lemma strip_sentence_idem: "strip_sentence (strip_sentence xs) = strip_sentence xs"
proof -
  let ?D = "dropWhile trimmable xs"
  let ?S = "rev (dropWhile trimmable (rev ?D))"
  have S: "?S = take (length ?S) ?D"
    by (subst length_rev) (rule rev_dropWhile_rev_take)
  have "dropWhile trimmable ?S = ?S"
  proof (cases "?S = []")
    case True
    show ?thesis by (simp only: True dropWhile.simps)
  next
    case False
    have "?D \<noteq> []"
    proof
      assume e: "?D = []"
      have "?S = []" by (simp only: e rev.simps dropWhile.simps)
      with False show False by simp
    qed
    then have "\<not> trimmable (hd ?D)"
      by (simp add: hd_dropWhile)
    moreover from False S have "hd ?S = hd ?D"
      by (metis hd_take length_greater_0_conv)
    ultimately show ?thesis
      using False by (simp add: dropWhile_eq_self_iff)
  qed
  then show ?thesis
    by (simp add: strip_sentence_def)
qed


lemma clamp_index_le: "clamp_index s i \<le> length s"
  by (auto simp: clamp_index_def)

text \<open>
  Extraction from the extracted sentence, when the character at the start
  column \<open>f\<close> of the span is kept in the sentence: the sentence begins at or
  before column \<open>f\<close> of the line and ends after it.
\<close>

lemma sentence_idempotent_kept_start:
  assumes f0: "0 \<le> f" and ft: "f \<le> t"
    and o1: "int (sentence_offset s f t) \<le> f"
    and o2: "f - int (sentence_offset s f t) < int (length (sentence_of_line s f t))"
  shows "sentence_of_line (sentence_of_line s f t)
           (f - int (sentence_offset s f t)) (t - int (sentence_offset s f t))
         = sentence_of_line s f t"
proof -
  define F where "F = nat f"
  define T where "T = nat t"
  have fF: "f = int F" and tT: "t = int T" and FT: "F \<le> T"
    using f0 ft by (simp_all add: F_def T_def)
  define st where "st = findWordBoundaries s f Backward"
  define en where "en = findWordBoundaries s t Forward"
  define a where "a = clamp_index s st"
  define b where "b = clamp_index s en"
  define sub where "sub = js_substring s st en"
  define k where "k = length (takeWhile trimmable sub)"
  define S where "S = sentence_of_line s f t"
  define m where "m = length S"
  define off where "off = sentence_offset s f t"
  define R1 where "R1 = rev (take (Suc F) s)"
  define n1 where "n1 = scan_steps 0 R1"
  define n2 where "n2 = scan_steps 0 (drop T s)"
  have S_strip: "S = strip_sentence sub"
    by (simp add: S_def sentence_of_line_def Let_def sub_def st_def en_def)
  have off_eq: "off = min a b + k"
    by (simp add: off_def sentence_offset_def Let_def k_def sub_def st_def en_def a_def b_def)
  have sub_eq: "sub = take (max a b - min a b) (drop (min a b) s)"
    by (simp add: sub_def js_substring_def Let_def a_def b_def)
  have o1': "int off \<le> f"
    using o1 by (simp add: off_def)
  have o2': "f - int off < int m"
    using o2 by (simp add: off_def m_def S_def)
  from o1' have offF: "off \<le> F"
    by (simp add: F_def)
  from o2' offF have Fm: "F - off < m"
    unfolding fF by linarith
  have S_take: "S = take m (drop k sub)"
    using strip_sentence_take [of sub] by (simp add: S_strip m_def k_def)
  then have "m = length (take m (drop k sub))"
    by (simp add: m_def)
  then have m_le: "m + k \<le> length sub"
    using Fm by simp
  have "length sub \<le> length s - min a b"
    by (simp add: sub_eq)
  moreover have "min a b \<le> length s"
    using clamp_index_le [of s st] by (simp add: a_def min_def)
  ultimately have off_m: "off + m \<le> length s"
    using m_le off_eq by simp
  with Fm offF have Fs: "F < length s"
    by simp
  txt \<open>The backward scan of the line.\<close>
  have R1_eq: "R1 = s ! F # rev (take F s)"
    using Fs by (simp add: R1_def take_Suc_conv_app_nth)
  have st_eq: "st = int (Suc F) - int n1 - (if scan_halted 0 R1 then 1 else 0)"
    using loop_backward [of "Suc F" s 0] Fs
    by (simp add: st_def findWordBoundaries_def fF n1_def R1_def)
  have n1_le: "n1 \<le> Suc F"
    using scan_steps_le [of 0 R1] Fs by (simp add: n1_def R1_def)
  have h1: "scan_halted 0 R1 \<Longrightarrow> n1 < Suc F \<and> R1 ! n1 \<in> set sentenceEndings"
    using scan_halted_ending [of 0 R1] Fs by (simp add: n1_def R1_def)
  have n1_pos: "\<not> scan_halted 0 R1 \<Longrightarrow> 0 < n1"
    using scan_not_halted_pos [of "s ! F" "rev (take F s)"] by (simp add: n1_def R1_eq)
  have a_eq: "a = Suc F - n1 - (if scan_halted 0 R1 then 1 else 0)"
    using n1_le h1 Fs by (auto simp: a_def clamp_index_def st_eq)
  have aF: "a \<le> F"
    using n1_pos by (auto simp: a_eq)
  txt \<open>The forward scan of the line.\<close>
  have en_eq: "en = int T + int n2"
    using loop_forward [of s 0 T] by (simp add: en_def findWordBoundaries_def tT n2_def)
  have b_le: "b \<le> T + n2" and Fb: "F \<le> b"
    using Fs FT by (auto simp: b_def clamp_index_def en_eq)
  from aF Fb have ab: "a \<le> b" by simp
  then have sub_ab: "sub = take (b - a) (drop a s)" and off_ak: "off = a + k"
    by (simp_all add: sub_eq off_eq)
  have "drop k sub = take (b - a - k) (drop (a + k) s)"
    by (simp add: sub_ab drop_take add.commute)
  with S_take have "S = take m (take (b - a - k) (drop off s))"
    by (simp add: off_ak)
  moreover have m_b: "off + m \<le> b"
  proof -
    have "length sub \<le> b - a"
      by (simp add: sub_ab)
    with m_le ab show ?thesis
      unfolding off_ak by linarith
  qed
  ultimately have S_piece: "S = take m (drop off s)"
    using ab by (simp add: off_ak min_def)
  txt \<open>The sentence keeps no character the backward scan did not pass over.\<close>
  have off_n1: "Suc F \<le> off + n1"
  proof (cases "scan_halted 0 R1")
    case False
    then show ?thesis
      using n1_le by (simp add: off_ak a_eq)
  next
    case True
    with h1 have lt: "n1 < Suc F" and e: "R1 ! n1 \<in> set sentenceEndings"
      by simp_all
    have "R1 ! n1 = s ! (F - n1)"
      using lt Fs by (simp add: R1_def rev_nth)
    moreover have an: "a = F - n1"
      using True lt by (simp add: a_eq)
    ultimately have tr: "trimmable (s ! a)"
      using e by (simp add: trimmable_def)
    have "a < b"
      using m_b Fm offF by (simp add: off_ak)
    then have "sub \<noteq> []" and "hd sub = s ! a"
      using aF Fs by (simp_all add: sub_ab hd_drop_conv_nth)
    with tr have "takeWhile trimmable sub \<noteq> []"
      by (simp add: takeWhile_eq_Nil_iff)
    then have "0 < k"
      by (simp add: k_def)
    then show ?thesis
      using lt by (simp add: off_ak an)
  qed
  txt \<open>The backward scan of the sentence returns 0.\<close>
  define F' where "F' = F - off"
  have F'm: "Suc F' \<le> m"
    using Fm by (simp add: F'_def)
  have "take (Suc F') S = take (Suc F') (drop off s)"
    using F'm by (simp add: S_piece min_def)
  also have "\<dots> = drop off (take (Suc F) s)"
    using offF by (simp add: take_drop F'_def)
  finally have "rev (take (Suc F') S) = take (Suc F') R1"
    using offF Fs by (simp add: rev_drop R1_def F'_def Suc_diff_le)
  moreover have "Suc F' \<le> n1"
    using off_n1 offF by (simp add: F'_def)
  ultimately have "scan_steps 0 (rev (take (Suc F') S)) = Suc F'"
    and "\<not> scan_halted 0 (rev (take (Suc F') S))"
    using scan_prefix [of "Suc F'" 0 R1] by (simp_all add: n1_def)
  then have scan_back: "findWordBoundaries S (int F') Backward = 0"
    using loop_backward [of "Suc F'" S 0] F'm
    by (simp add: findWordBoundaries_def m_def)
  txt \<open>The forward scan of the sentence returns its length, or more.\<close>
  define T' where "T' = T - off"
  have fwd: "clamp_index S (findWordBoundaries S (int T') Forward) = m"
  proof (cases "T' < m")
    case False
    then have "drop T' S = []"
      by (simp add: m_def)
    then have "findWordBoundaries S (int T') Forward = int T'"
      using loop_forward [of S 0 T'] by (simp add: findWordBoundaries_def)
    with False show ?thesis
      by (simp add: clamp_index_def m_def)
  next
    case True
    have "drop T' S = take (m - T') (drop T s)"
      using offF FT by (simp add: S_piece drop_take T'_def)
    moreover have "m - T' \<le> n2"
      using m_b b_le offF FT by (simp add: T'_def)
    ultimately have "scan_steps 0 (drop T' S) = m - T'"
      using scan_prefix [of "m - T'" 0 "drop T s"] by (simp add: n2_def)
    then have "findWordBoundaries S (int T') Forward = int m"
      using loop_forward [of S 0 T'] True by (simp add: findWordBoundaries_def)
    then show ?thesis
      by (simp add: clamp_index_def m_def)
  qed
  have "f - int off = int F'" and "t - int off = int T'"
    using offF FT by (simp_all add: fF tT F'_def T'_def)
  then have "sentence_of_line S (f - int off) (t - int off)
               = strip_sentence (js_substring S 0 (findWordBoundaries S (int T') Forward))"
    by (simp add: sentence_of_line_def Let_def scan_back)
  also have "js_substring S 0 (findWordBoundaries S (int T') Forward) = S"
    using fwd by (simp add: js_substring_def Let_def clamp_index_def m_def)
  also have "strip_sentence S = S"
    by (simp add: S_strip strip_sentence_idem)
  finally show ?thesis
    by (simp add: S_def off_def)
qed

lemma takeWhile_length_le_index:
  "i < length xs \<Longrightarrow> \<not> P (xs ! i) \<Longrightarrow> length (takeWhile P xs) \<le> i"
proof (rule ccontr)
  assume i: "i < length xs" and n: "\<not> P (xs ! i)" and c: "\<not> length (takeWhile P xs) \<le> i"
  then have lt: "i < length (takeWhile P xs)" by simp
  then have "takeWhile P xs ! i = xs ! i"
    by (rule takeWhile_nth)
  moreover from lt have "takeWhile P xs ! i \<in> set (takeWhile P xs)"
    by simp
  then have "P (takeWhile P xs ! i)"
    by (rule set_takeWhileD [THEN conjunct2])
  ultimately show False
    using n by simp
qed

lemma strip_sentence_keeps:
  assumes i: "i < length xs" and n: "\<not> trimmable (xs ! i)"
  shows "length (takeWhile trimmable xs) \<le> i"
    and "i - length (takeWhile trimmable xs) < length (strip_sentence xs)"
proof -
  let ?k = "length (takeWhile trimmable xs)"
  let ?D = "dropWhile trimmable xs"
  show k: "?k \<le> i"
    using i n by (rule takeWhile_length_le_index)
  have D: "?D = drop ?k xs"
    by (rule dropWhile_eq_drop)
  have lD: "length ?D = length xs - ?k"
    by (simp add: D)
  let ?j = "i - ?k"
  have j: "?j < length ?D"
    using i k by (simp add: lD)
  have "?D ! ?j = xs ! i"
    using i k by (simp add: D)
  with n have nj: "\<not> trimmable (?D ! ?j)"
    by simp
  let ?r = "length ?D - Suc ?j"
  have r: "?r < length (rev ?D)"
    using j by simp
  have "rev ?D ! ?r = ?D ! ?j"
    using j by (simp add: rev_nth)
  with nj have "\<not> trimmable (rev ?D ! ?r)"
    by simp
  with r have "length (takeWhile trimmable (rev ?D)) \<le> ?r"
    by (rule takeWhile_length_le_index)
  moreover have "length (takeWhile trimmable (rev ?D)) + length (dropWhile trimmable (rev ?D)) = length ?D"
    by (metis length_append length_rev takeWhile_dropWhile_id)
  ultimately have "?j < length (dropWhile trimmable (rev ?D))"
    using j by linarith
  then show "?j < length (strip_sentence xs)"
    by (simp add: strip_sentence_def)
qed

text \<open>
  C8. Sentence extraction is idempotent on its output. For every line and every
  word span, from column \<open>f\<close> to column \<open>t\<close> with \<open>0 \<le> f \<le> t\<close>, that starts on a
  character of the line which is neither white space nor a sentence ending:
  extraction from the extracted, trimmed sentence, taken as a fresh line and
  with the span translated to its columns in the sentence, yields the same
  sentence.
\<close>

theorem word_span_sentence_idempotent:
  assumes f0: "0 \<le> f" and ft: "f \<le> t" and fs: "f < int (length s)"
    and w: "\<not> trimmable (s ! nat f)"
  shows "sentence_of_line (sentence_of_line s f t)
           (f - int (sentence_offset s f t)) (t - int (sentence_offset s f t))
         = sentence_of_line s f t"
proof -
  define F where "F = nat f"
  define T where "T = nat t"
  have fF: "f = int F" and tT: "t = int T" and FT: "F \<le> T" and Fs: "F < length s"
    using f0 ft fs by (simp_all add: F_def T_def)
  from w have wF: "\<not> trimmable (s ! F)"
    by (simp add: F_def)
  then have nE: "s ! F \<notin> set sentenceEndings"
    by (simp add: trimmable_def)
  define st where "st = findWordBoundaries s f Backward"
  define en where "en = findWordBoundaries s t Forward"
  define a where "a = clamp_index s st"
  define b where "b = clamp_index s en"
  define sub where "sub = js_substring s st en"
  define R1 where "R1 = rev (take (Suc F) s)"
  have R1_eq: "R1 = s ! F # rev (take F s)"
    using Fs by (simp add: R1_def take_Suc_conv_app_nth)
  have "0 < scan_steps 0 R1"
    using nE by (simp add: R1_eq)
  moreover have "st = int (Suc F) - int (scan_steps 0 R1) - (if scan_halted 0 R1 then 1 else 0)"
    using loop_backward [of "Suc F" s 0] Fs
    by (simp add: st_def findWordBoundaries_def fF R1_def)
  ultimately have "st \<le> int F"
    by (simp split: if_splits)
  then have aF: "a \<le> F"
    using Fs by (auto simp: a_def clamp_index_def)
  have en_eq: "en = int T + int (scan_steps 0 (drop T s))"
    using loop_forward [of s 0 T] by (simp add: en_def findWordBoundaries_def tT)
  have "int F < en"
  proof (cases "F < T")
    case True
    then show ?thesis by (simp add: en_eq)
  next
    case False
    with FT have "T = F" by simp
    moreover have "drop F s = s ! F # drop (Suc F) s"
      using Fs by (simp add: Cons_nth_drop_Suc)
    ultimately show ?thesis
      using nE by (simp add: en_eq)
  qed
  then have Fb: "F < b"
    using Fs by (auto simp: b_def clamp_index_def)
  have bs: "b \<le> length s"
    by (simp add: b_def clamp_index_le)
  from aF Fb have ab: "a \<le> b" by simp
  then have sub_eq: "sub = take (b - a) (drop a s)"
    by (simp add: sub_def js_substring_def Let_def a_def b_def)
  have i: "F - a < length sub"
    using aF Fb bs by (simp add: sub_eq)
  have "sub ! (F - a) = s ! F"
    using aF Fb bs by (simp add: sub_eq)
  with wF have n: "\<not> trimmable (sub ! (F - a))"
    by simp
  have off: "sentence_offset s f t = a + length (takeWhile trimmable sub)"
    using ab by (simp add: sentence_offset_def Let_def sub_def st_def en_def a_def b_def)
  have S: "sentence_of_line s f t = strip_sentence sub"
    by (simp add: sentence_of_line_def Let_def sub_def st_def en_def)
  define off where "off = sentence_offset s f t"
  define m where "m = length (sentence_of_line s f t)"
  have offF: "off \<le> F"
    using strip_sentence_keeps(1) [OF i n] aF by (simp add: off_def off)
  have Fm: "F - off < m"
    using strip_sentence_keeps(2) [OF i n] strip_sentence_keeps(1) [OF i n] aF
    by (simp add: off_def off m_def S)
  have o1: "int (sentence_offset s f t) \<le> f"
    using offF f0 unfolding off_def F_def by linarith
  have o2: "f - int (sentence_offset s f t) < int (length (sentence_of_line s f t))"
    using Fm offF f0 unfolding off_def m_def F_def by linarith
  from f0 ft o1 o2 show ?thesis
    by (rule sentence_idempotent_kept_start)
qed

theorem word_span_sentence_idempotent_witness:
  "sentence_of_line fox_line 36 40 = ''Over the lazy dog''
   \<and> sentence_offset fox_line 36 40 = 27
   \<and> sentence_of_line ''Over the lazy dog'' 9 13 = ''Over the lazy dog''"
proof -
  have a: "sentence_of_line fox_line 36 40 = ''Over the lazy dog''"
    by code_simp
  have b: "sentence_offset fox_line 36 40 = 27"
    by code_simp
  have c: "(36::int) < int (length fox_line)"
    by (simp add: fox_line_def)
  have d: "\<not> trimmable (fox_line ! nat 36)"
    by code_simp
  from word_span_sentence_idempotent [of 36 40 fox_line] a b c d
  show ?thesis
    by simp
qed

text \<open>
  A span that starts on white space need not have a place in the sentence: on
  the line "ab ." the blank at columns 2 to 3 is stripped from the sentence
  "ab", and the columns 2 to 3 lie past its end.
\<close>

lemma blank_span_is_stripped:
  "sentence_of_line ''ab .'' 2 3 = ''ab''
   \<and> sentence_offset ''ab .'' 2 3 = 0
   \<and> sentence_of_line ''ab'' 2 3 = []"
  by code_simp

end
